theory Spec2Isabelle
  imports Main
begin

section \<open>The data model of avltree.h\<close>

text \<open>
  Node pointers are addresses; the C \<^verbatim>\<open>NULL\<close> is \<open>None\<close>. Every non-null pointer
  denotes a caller-owned record holding an \<^verbatim>\<open>avl_node_t\<close>, so the memory is a total
  function from addresses to nodes.
\<close>

type_synonym addr = nat

record avl_node =
  parent :: "addr option"
  left :: "addr option"
  right :: "addr option"
  height :: int

text \<open>
  The state a call works on: the memory holding the nodes, and the two fields of
  \<^verbatim>\<open>avl_tree_t\<close>, the root pointer and the comparator \<^verbatim>\<open>avl_ops->avl_cmp\<close>
  (negative: less, positive: greater, zero: equal).
\<close>

record avl_tree =
  mem :: "addr \<Rightarrow> avl_node"
  root :: "addr option"
  avl_cmp :: "addr \<Rightarrow> addr \<Rightarrow> int"

text \<open>
  \<open>AssertFail\<close> is a failed \<^verbatim>\<open>assert\<close>, \<open>NullDeref\<close> a field access through
  \<^verbatim>\<open>NULL\<close>, \<open>OutOfFuel\<close> a recursion or loop that did not finish within the
  given number of steps.
\<close>

datatype error = AssertFail | NullDeref | OutOfFuel

text \<open>A value of type \<^verbatim>\<open>avl_node_t **\<close>: the address of a pointer field.\<close>

datatype slot = RootSlot | LeftSlot addr | RightSlot addr

definition slot_get :: "avl_tree \<Rightarrow> slot \<Rightarrow> addr option" where
  "slot_get s sl =
     (case sl of RootSlot \<Rightarrow> root s
      | LeftSlot a \<Rightarrow> left (mem s a)
      | RightSlot a \<Rightarrow> right (mem s a))"

definition set_parent :: "addr \<Rightarrow> addr option \<Rightarrow> avl_tree \<Rightarrow> avl_tree" where
  "set_parent a p s = s\<lparr>mem := (mem s)(a := (mem s a)\<lparr>parent := p\<rparr>)\<rparr>"

definition set_left :: "addr \<Rightarrow> addr option \<Rightarrow> avl_tree \<Rightarrow> avl_tree" where
  "set_left a p s = s\<lparr>mem := (mem s)(a := (mem s a)\<lparr>left := p\<rparr>)\<rparr>"

definition set_right :: "addr \<Rightarrow> addr option \<Rightarrow> avl_tree \<Rightarrow> avl_tree" where
  "set_right a p s = s\<lparr>mem := (mem s)(a := (mem s a)\<lparr>right := p\<rparr>)\<rparr>"

definition set_node_height :: "addr \<Rightarrow> int \<Rightarrow> avl_tree \<Rightarrow> avl_tree" where
  "set_node_height a h s = s\<lparr>mem := (mem s)(a := (mem s a)\<lparr>height := h\<rparr>)\<rparr>"

definition slot_set :: "slot \<Rightarrow> addr option \<Rightarrow> avl_tree \<Rightarrow> avl_tree" where
  "slot_set sl p s =
     (case sl of RootSlot \<Rightarrow> s\<lparr>root := p\<rparr>
      | LeftSlot a \<Rightarrow> set_left a p s
      | RightSlot a \<Rightarrow> set_right a p s)"

section \<open>Rotations\<close>

text \<open>
  \<^verbatim>\<open>avl_rotate_rr(root, node)\<close>: the two asserts, then the six assignments in the
  order of the source, each reading the memory as the previous ones left it.
\<close>

definition avl_rotate_rr :: "avl_tree \<Rightarrow> slot \<Rightarrow> addr \<Rightarrow> error + avl_tree" where
  "avl_rotate_rr s sl node =
     (case right (mem s node) of
        None \<Rightarrow> Inl AssertFail
      | Some r \<Rightarrow>
          if slot_get s sl \<noteq> Some node then Inl AssertFail
          else
            let s1 = set_right node (left (mem s r)) s;
                s2 = (case left (mem s1 r) of None \<Rightarrow> s1
                      | Some a \<Rightarrow> set_parent a (Some node) s1);
                s3 = set_parent r (parent (mem s2 node)) s2;
                s4 = set_left r (Some node) s3;
                s5 = set_parent node (Some r) s4
            in Inr (slot_set sl (Some r) s5))"

definition avl_rotate_ll :: "avl_tree \<Rightarrow> slot \<Rightarrow> addr \<Rightarrow> error + avl_tree" where
  "avl_rotate_ll s sl node =
     (case left (mem s node) of
        None \<Rightarrow> Inl AssertFail
      | Some l \<Rightarrow>
          if slot_get s sl \<noteq> Some node then Inl AssertFail
          else
            let s1 = set_left node (right (mem s l)) s;
                s2 = (case right (mem s1 l) of None \<Rightarrow> s1
                      | Some b \<Rightarrow> set_parent b (Some node) s1);
                s3 = set_parent l (parent (mem s2 node)) s2;
                s4 = set_right l (Some node) s3;
                s5 = set_parent node (Some l) s4
            in Inr (slot_set sl (Some l) s5))"

definition avl_rotate_lr :: "avl_tree \<Rightarrow> slot \<Rightarrow> addr \<Rightarrow> error + avl_tree" where
  "avl_rotate_lr s sl node =
     (case left (mem s node) of
        None \<Rightarrow> Inl AssertFail
      | Some l \<Rightarrow>
          if right (mem s l) = None then Inl AssertFail
          else if slot_get s sl \<noteq> Some node then Inl AssertFail
          else
            (case avl_rotate_rr s (LeftSlot node) l of
               Inl e \<Rightarrow> Inl e
             | Inr s1 \<Rightarrow> avl_rotate_ll s1 sl node))"

definition avl_rotate_rl :: "avl_tree \<Rightarrow> slot \<Rightarrow> addr \<Rightarrow> error + avl_tree" where
  "avl_rotate_rl s sl node =
     (case right (mem s node) of
        None \<Rightarrow> Inl AssertFail
      | Some r \<Rightarrow>
          if left (mem s r) = None then Inl AssertFail
          else if slot_get s sl \<noteq> Some node then Inl AssertFail
          else
            (case avl_rotate_ll s (RightSlot node) r of
               Inl e \<Rightarrow> Inl e
             | Inr s1 \<Rightarrow> avl_rotate_rr s1 sl node))"

section \<open>Heights and balance\<close>

definition avl_get_balance :: "avl_tree \<Rightarrow> addr \<Rightarrow> int" where
  "avl_get_balance s node =
     (let lh = (case left (mem s node) of None \<Rightarrow> 0 | Some l \<Rightarrow> height (mem s l));
          rh = (case right (mem s node) of None \<Rightarrow> 0 | Some r \<Rightarrow> height (mem s r))
      in lh - rh)"

definition avl_is_balanced :: "avl_tree \<Rightarrow> addr \<Rightarrow> bool" where
  "avl_is_balanced s node =
     (let bfact = avl_get_balance s node
      in if bfact < -1 \<or> bfact > 1 then False else True)"

text \<open>
  \<^verbatim>\<open>avl_set_height\<close> recurses along the child pointers, which need not end on a
  malformed memory: the first argument bounds the recursion depth. The recursive calls
  write height fields only, so the child pointers read before a call are the ones the
  source reads again after it.
\<close>

fun avl_set_height :: "nat \<Rightarrow> avl_tree \<Rightarrow> addr \<Rightarrow> error + avl_tree" where
  "avl_set_height 0 s node = Inl OutOfFuel"
| "avl_set_height (Suc k) s node =
     (let s1 = set_node_height node 1 s in
      case (case left (mem s1 node) of
              None \<Rightarrow> Inr s1
            | Some l \<Rightarrow>
                (case avl_set_height k s1 l of
                   Inl e \<Rightarrow> Inl e
                 | Inr s2 \<Rightarrow> Inr (set_node_height node (height (mem s2 l) + 1) s2))) of
        Inl e \<Rightarrow> Inl e
      | Inr s3 \<Rightarrow>
          (case right (mem s3 node) of
             None \<Rightarrow> Inr s3
           | Some r \<Rightarrow>
               (case avl_set_height k s3 r of
                  Inl e \<Rightarrow> Inl e
                | Inr s4 \<Rightarrow>
                    if height (mem s4 r) \<ge> height (mem s4 node)
                    then Inr (set_node_height node (height (mem s4 r) + 1) s4)
                    else Inr s4)))"

text \<open>\<^verbatim>\<open>avl_set_height(tree->root)\<close>: the call dereferences the root pointer.\<close>

definition set_height_root :: "nat \<Rightarrow> avl_tree \<Rightarrow> error + avl_tree" where
  "set_height_root f s =
     (case root s of None \<Rightarrow> Inl NullDeref | Some a \<Rightarrow> avl_set_height f s a)"

section \<open>The rebalance driver\<close>

text \<open>
  \<^verbatim>\<open>avl_do_balancing\<close> returns the flag \<^verbatim>\<open>ret\<close> together with the new state.
  \<open>f\<close> is the depth bound handed to \<^verbatim>\<open>avl_set_height\<close>.
\<close>

definition avl_do_balancing :: "nat \<Rightarrow> avl_tree \<Rightarrow> addr \<Rightarrow> error + (bool \<times> avl_tree)" where
  "avl_do_balancing f s node =
     (case (case parent (mem s node) of
              Some p \<Rightarrow> Inr (if right (mem s p) = Some node then RightSlot p else LeftSlot p)
            | None \<Rightarrow> if root s = Some node then Inr RootSlot else Inl AssertFail) of
        Inl e \<Rightarrow> Inl e
      | Inr sl \<Rightarrow>
          (case (if avl_get_balance s node > 0 then
                   (case left (mem s node) of
                      None \<Rightarrow> Inl AssertFail
                    | Some l \<Rightarrow>
                        if avl_get_balance s l > 0 then
                          (case avl_rotate_ll s sl node of
                             Inl e \<Rightarrow> Inl e | Inr s1 \<Rightarrow> Inr (True, s1))
                        else if avl_get_balance s l < 0 then
                          (case avl_rotate_lr s sl node of
                             Inl e \<Rightarrow> Inl e | Inr s1 \<Rightarrow> Inr (True, s1))
                        else
                          (case avl_rotate_ll s sl node of
                             Inl e \<Rightarrow> Inl e | Inr s1 \<Rightarrow> Inr (False, s1)))
                 else if avl_get_balance s node < 0 then
                   (case right (mem s node) of
                      None \<Rightarrow> Inl AssertFail
                    | Some r \<Rightarrow>
                        if avl_get_balance s r < 0 then
                          (case avl_rotate_rr s sl node of
                             Inl e \<Rightarrow> Inl e | Inr s1 \<Rightarrow> Inr (True, s1))
                        else if avl_get_balance s r > 0 then
                          (case avl_rotate_rl s sl node of
                             Inl e \<Rightarrow> Inl e | Inr s1 \<Rightarrow> Inr (True, s1))
                        else
                          (case avl_rotate_rr s sl node of
                             Inl e \<Rightarrow> Inl e | Inr s1 \<Rightarrow> Inr (False, s1)))
                 else Inr (True, s)) of
             Inl e \<Rightarrow> Inl e
           | Inr (ret, s1) \<Rightarrow>
               (case set_height_root f s1 of
                  Inl e \<Rightarrow> Inl e
                | Inr s2 \<Rightarrow> Inr (ret, s2))))"

fun avl_get_max_node :: "nat \<Rightarrow> avl_tree \<Rightarrow> addr option \<Rightarrow> error + addr option" where
  "avl_get_max_node k s None = Inr None"
| "avl_get_max_node 0 s (Some node) = Inl OutOfFuel"
| "avl_get_max_node (Suc k) s (Some node) =
     (case right (mem s node) of
        None \<Rightarrow> Inr (Some node)
      | Some r \<Rightarrow> avl_get_max_node k s (Some r))"

fun avl_get_min_node :: "nat \<Rightarrow> avl_tree \<Rightarrow> addr option \<Rightarrow> error + addr option" where
  "avl_get_min_node k s None = Inr None"
| "avl_get_min_node 0 s (Some node) = Inl OutOfFuel"
| "avl_get_min_node (Suc k) s (Some node) =
     (case left (mem s node) of
        None \<Rightarrow> Inr (Some node)
      | Some l \<Rightarrow> avl_get_min_node k s (Some l))"

section \<open>Search\<close>

text \<open>\<^verbatim>\<open>__avl_find\<close>; it reads the memory and writes nothing.\<close>

fun avl_find_rec :: "nat \<Rightarrow> avl_tree \<Rightarrow> addr option \<Rightarrow> addr \<Rightarrow> error + addr option" where
  "avl_find_rec k s None node = Inr None"
| "avl_find_rec 0 s (Some r) node = Inl OutOfFuel"
| "avl_find_rec (Suc k) s (Some r) node =
     (let res = avl_cmp s node r in
      if res > 0 then avl_find_rec k s (right (mem s r)) node
      else if res < 0 then avl_find_rec k s (left (mem s r)) node
      else Inr (Some r))"

definition avl_find :: "nat \<Rightarrow> avl_tree \<Rightarrow> addr \<Rightarrow> error + addr option" where
  "avl_find f s node = avl_find_rec f s (root s) node"

section \<open>Insertion\<close>

text \<open>
  \<^verbatim>\<open>__avl_add(root, root_parent, node, cmp)\<close> returns a pointer and the new state.
  In the branch \<^verbatim>\<open>res > 0\<close> the source reads
  \<^verbatim>\<open>return root->right = __avl_add(...)\<close>, whose value is the pointer just stored in
  \<^verbatim>\<open>root->right\<close>; in the branch \<^verbatim>\<open>res < 0\<close> the assignment is followed by
  \<^verbatim>\<open>return root\<close>.
\<close>

fun avl_add_rec ::
  "nat \<Rightarrow> avl_tree \<Rightarrow> addr option \<Rightarrow> addr option \<Rightarrow> addr \<Rightarrow> error + (addr \<times> avl_tree)" where
  "avl_add_rec k s None root_parent node = Inr (node, set_parent node root_parent s)"
| "avl_add_rec 0 s (Some r) root_parent node = Inl OutOfFuel"
| "avl_add_rec (Suc k) s (Some r) root_parent node =
     (let res = avl_cmp s node r in
      if res < 0 then
        (case avl_add_rec k s (left (mem s r)) (Some r) node of
           Inl e \<Rightarrow> Inl e
         | Inr (x, s1) \<Rightarrow> Inr (r, set_left r (Some x) s1))
      else if res > 0 then
        (case avl_add_rec k s (right (mem s r)) (Some r) node of
           Inl e \<Rightarrow> Inl e
         | Inr (x, s1) \<Rightarrow> Inr (x, set_right r (Some x) s1))
      else Inr (r, s))"

text \<open>
  The loop of \<^verbatim>\<open>avl_add\<close> that walks the parent pointers from the new node: it
  stops at the first node found unbalanced, after one call of the driver.
\<close>

fun add_rebalance :: "nat \<Rightarrow> nat \<Rightarrow> avl_tree \<Rightarrow> addr option \<Rightarrow> error + avl_tree" where
  "add_rebalance f k s None = Inr s"
| "add_rebalance f 0 s (Some node) = Inl OutOfFuel"
| "add_rebalance f (Suc k) s (Some node) =
     (if \<not> avl_is_balanced s node then
        (case avl_do_balancing f s node of
           Inl e \<Rightarrow> Inl e
         | Inr (ret, s1) \<Rightarrow> Inr s1)
      else add_rebalance f k s (parent (mem s node)))"

text \<open>The first two statements of \<^verbatim>\<open>avl_add\<close>: link the node, recompute all heights.\<close>

definition avl_add_link :: "nat \<Rightarrow> avl_tree \<Rightarrow> addr \<Rightarrow> error + avl_tree" where
  "avl_add_link f s node =
     (case avl_add_rec f s (root s) None node of
        Inl e \<Rightarrow> Inl e
      | Inr (x, s1) \<Rightarrow> set_height_root f (s1\<lparr>root := Some x\<rparr>))"

definition avl_add :: "nat \<Rightarrow> avl_tree \<Rightarrow> addr \<Rightarrow> error + avl_tree" where
  "avl_add f s node =
     (case avl_add_link f s node of
        Inl e \<Rightarrow> Inl e
      | Inr s2 \<Rightarrow> add_rebalance f f s2 (Some node))"

section \<open>Deletion\<close>

text \<open>
  One of the two symmetric halves of \<^verbatim>\<open>avl_swap_nodes\<close> (``handle node1'',
  ``handle node2''): after the contents were exchanged, \<open>a\<close> sits where \<open>b\<close> was, and
  the pointers around \<open>a\<close> are patched.
\<close>

definition swap_patch :: "addr \<Rightarrow> addr \<Rightarrow> avl_tree \<Rightarrow> error + avl_tree" where
  "swap_patch a b s =
     (case (case parent (mem s a) of
              Some p \<Rightarrow>
                if p = a then Inr (set_parent a (Some b) s)
                else if left (mem s p) = Some b then Inr (set_left p (Some a) s)
                else if right (mem s p) = Some b then Inr (set_right p (Some a) s)
                else Inl AssertFail
            | None \<Rightarrow>
                if root s = Some b then Inr (s\<lparr>root := Some a\<rparr>) else Inl AssertFail) of
        Inl e \<Rightarrow> Inl e
      | Inr s1 \<Rightarrow>
          let s2 = (case left (mem s1 a) of
                      None \<Rightarrow> s1
                    | Some l \<Rightarrow>
                        let s1' = (if l = a then set_left a (Some b) s1 else s1)
                        in (case left (mem s1' a) of
                              None \<Rightarrow> s1'
                            | Some l' \<Rightarrow> set_parent l' (Some a) s1'));
              s3 = (case right (mem s2 a) of
                      None \<Rightarrow> s2
                    | Some r \<Rightarrow>
                        let s2' = (if r = a then set_right a (Some b) s2 else s2)
                        in (case right (mem s2' a) of
                              None \<Rightarrow> s2'
                            | Some r' \<Rightarrow> set_parent r' (Some a) s2'))
          in Inr s3)"

definition avl_swap_nodes :: "avl_tree \<Rightarrow> addr \<Rightarrow> addr \<Rightarrow> error + avl_tree" where
  "avl_swap_nodes s node1 node2 =
     (if node1 = node2 then Inr s
      else
        let tmp = mem s node1;
            s1 = s\<lparr>mem := (mem s)(node1 := mem s node2)\<rparr>;
            s2 = s1\<lparr>mem := (mem s1)(node2 := tmp)\<rparr>
        in (case swap_patch node1 node2 s2 of
              Inl e \<Rightarrow> Inl e
            | Inr s3 \<Rightarrow> swap_patch node2 node1 s3))"

text \<open>
  The loop of \<^verbatim>\<open>avl_del\<close>: after a call of the driver that returned \<^verbatim>\<open>FALSE\<close>
  the loop is left (\<^verbatim>\<open>if (!cont) break\<close>); after one that returned \<^verbatim>\<open>TRUE\<close> the
  walk goes on, skipping one node (\<^verbatim>\<open>node = node->parent\<close> in the body, then the
  increment of the \<^verbatim>\<open>for\<close>).
\<close>

fun del_rebalance :: "nat \<Rightarrow> nat \<Rightarrow> avl_tree \<Rightarrow> addr option \<Rightarrow> error + avl_tree" where
  "del_rebalance f k s None = Inr s"
| "del_rebalance f 0 s (Some node) = Inl OutOfFuel"
| "del_rebalance f (Suc k) s (Some node) =
     (if \<not> avl_is_balanced s node then
        (case avl_do_balancing f s node of
           Inl e \<Rightarrow> Inl e
         | Inr (cont, s1) \<Rightarrow>
             if \<not> cont then Inr s1
             else
               (case parent (mem s1 node) of
                  None \<Rightarrow> Inl NullDeref
                | Some q \<Rightarrow> del_rebalance f k s1 (parent (mem s1 q))))
      else del_rebalance f k s (parent (mem s node)))"

text \<open>The two-children reduction at the head of \<^verbatim>\<open>avl_del\<close>.\<close>

definition avl_del_reduce :: "nat \<Rightarrow> avl_tree \<Rightarrow> addr \<Rightarrow> error + avl_tree" where
  "avl_del_reduce f s node =
     (if left (mem s node) \<noteq> None \<and> right (mem s node) \<noteq> None then
        (case avl_get_max_node f s (left (mem s node)) of
           Inl e \<Rightarrow> Inl e
         | Inr None \<Rightarrow> Inl AssertFail
         | Inr (Some swap) \<Rightarrow> avl_swap_nodes s node swap)
      else Inr s)"

text \<open>The unlinking: the slot that holds the node receives its only child.\<close>

definition avl_del_unlink :: "avl_tree \<Rightarrow> addr \<Rightarrow> error + avl_tree" where
  "avl_del_unlink s node =
     (if left (mem s node) \<noteq> None \<and> right (mem s node) \<noteq> None then Inl AssertFail
      else
        let sl = (case parent (mem s node) of
                    Some p \<Rightarrow> if left (mem s p) = Some node then LeftSlot p else RightSlot p
                  | None \<Rightarrow> RootSlot);
            s1 = slot_set sl (if left (mem s node) \<noteq> None then left (mem s node)
                              else right (mem s node)) s
        in Inr (case slot_get s1 sl of
                  None \<Rightarrow> s1
                | Some c \<Rightarrow> set_parent c (parent (mem s1 node)) s1))"

definition avl_del :: "nat \<Rightarrow> avl_tree \<Rightarrow> addr \<Rightarrow> error + avl_tree" where
  "avl_del f s node =
     (case avl_del_reduce f s node of
        Inl e \<Rightarrow> Inl e
      | Inr s1 \<Rightarrow>
          (case avl_del_unlink s1 node of
             Inl e \<Rightarrow> Inl e
           | Inr s2 \<Rightarrow>
               (case parent (mem s2 node) of
                  None \<Rightarrow> Inr s2
                | Some p \<Rightarrow>
                    (case set_height_root f s2 of
                       Inl e \<Rightarrow> Inl e
                     | Inr s3 \<Rightarrow> del_rebalance f f s3 (Some p)))))"

section \<open>Trees in the memory, keys and runs of operations\<close>

text \<open>The shape of the nodes reachable from a pointer along the child pointers.\<close>

datatype ptree = Tip | Br ptree addr ptree

fun inorder :: "ptree \<Rightarrow> addr list" where
  "inorder Tip = []"
| "inorder (Br l a r) = inorder l @ a # inorder r"

fun depth :: "ptree \<Rightarrow> nat" where
  "depth Tip = 0"
| "depth (Br l a r) = Suc (max (depth l) (depth r))"

text \<open>
  Reading the shape off the memory, to a bounded depth: \<open>None\<close> when the structure
  below the pointer is deeper than the bound (a cycle, for one).
\<close>

fun shape_of :: "nat \<Rightarrow> (addr \<Rightarrow> avl_node) \<Rightarrow> addr option \<Rightarrow> ptree option" where
  "shape_of k m None = Some Tip"
| "shape_of 0 m (Some a) = None"
| "shape_of (Suc k) m (Some a) =
     (case shape_of k m (left (m a)) of
        None \<Rightarrow> None
      | Some l \<Rightarrow>
          (case shape_of k m (right (m a)) of
             None \<Rightarrow> None
           | Some r \<Rightarrow> Some (Br l a r)))"

text \<open>A comparator that compares the keys of the records holding the nodes.\<close>

definition key_cmp :: "(addr \<Rightarrow> int) \<Rightarrow> addr \<Rightarrow> addr \<Rightarrow> int" where
  "key_cmp key a b = (if key a < key b then -1 else if key a > key b then 1 else 0)"

definition blank :: avl_node where
  "blank = \<lparr>parent = None, left = None, right = None, height = 0\<rparr>"

text \<open>The empty tree over a memory of detached nodes, all with absent pointers.\<close>

definition empty_tree :: "(addr \<Rightarrow> int) \<Rightarrow> avl_tree" where
  "empty_tree key = \<lparr>mem = (\<lambda>_. blank), root = None, avl_cmp = key_cmp key\<rparr>"

datatype op = Add addr | Del addr

fun run_ops :: "nat \<Rightarrow> avl_tree \<Rightarrow> op list \<Rightarrow> error + avl_tree" where
  "run_ops f s [] = Inr s"
| "run_ops f s (Add n # ops) =
     (case avl_add f s n of Inl e \<Rightarrow> Inl e | Inr s1 \<Rightarrow> run_ops f s1 ops)"
| "run_ops f s (Del n # ops) =
     (case avl_del f s n of Inl e \<Rightarrow> Inl e | Inr s1 \<Rightarrow> run_ops f s1 ops)"

text \<open>
  Writing a tree into the memory: every node of \<open>t\<close> gets its parent, its children
  and its height (that of a leaf is 1), the way a well-formed tree has them.
\<close>

fun top :: "ptree \<Rightarrow> addr option" where
  "top Tip = None"
| "top (Br l a r) = Some a"

fun store :: "addr option \<Rightarrow> ptree \<Rightarrow> (addr \<Rightarrow> avl_node) \<Rightarrow> (addr \<Rightarrow> avl_node)" where
  "store p Tip m = m"
| "store p (Br l a r) m =
     (store (Some a) r (store (Some a) l m))
       (a := \<lparr>parent = p, left = top l, right = top r,
               height = int (depth (Br l a r))\<rparr>)"

definition tree_state :: "(addr \<Rightarrow> int) \<Rightarrow> ptree \<Rightarrow> avl_tree" where
  "tree_state key t = \<lparr>mem = store None t (\<lambda>_. blank), root = top t, avl_cmp = key_cmp key\<rparr>"

text \<open>
  The child pointers below \<open>a\<close> form the tree \<open>t\<close> (\<open>shape\<close>), and moreover every
  node of it points back to its parent (\<open>linked\<close>, with \<open>p\<close> the parent of \<open>a\<close>).
\<close>

fun shape :: "(addr \<Rightarrow> avl_node) \<Rightarrow> addr option \<Rightarrow> ptree \<Rightarrow> bool" where
  "shape m None Tip = True"
| "shape m (Some a) (Br l x r) =
     (a = x \<and> shape m (left (m a)) l \<and> shape m (right (m a)) r)"
| "shape m None (Br l x r) = False"
| "shape m (Some a) Tip = False"

fun linked :: "(addr \<Rightarrow> avl_node) \<Rightarrow> addr option \<Rightarrow> addr option \<Rightarrow> ptree \<Rightarrow> bool" where
  "linked m p None Tip = True"
| "linked m p (Some a) (Br l x r) =
     (a = x \<and> parent (m a) = p \<and> linked m (Some a) (left (m a)) l
      \<and> linked m (Some a) (right (m a)) r)"
| "linked m p None (Br l x r) = False"
| "linked m p (Some a) Tip = False"

text \<open>
  The ordering invariant of the specification: every node of the left subtree compares
  less than the node, every node of the right subtree greater.
\<close>

fun bst :: "(addr \<Rightarrow> addr \<Rightarrow> int) \<Rightarrow> ptree \<Rightarrow> bool" where
  "bst c Tip = True"
| "bst c (Br l a r) =
     (list_all (\<lambda>x. c x a < 0) (inorder l) \<and> list_all (\<lambda>x. c x a > 0) (inorder r)
      \<and> bst c l \<and> bst c r)"

text \<open>The comparator contract: \<open>c\<close> is the three-way comparison of keys in a linear order.\<close>

definition compares_keys :: "(addr \<Rightarrow> addr \<Rightarrow> int) \<Rightarrow> (addr \<Rightarrow> 'k::linorder) \<Rightarrow> bool" where
  "compares_keys c key = (\<forall>a b. (c a b < 0) = (key a < key b) \<and> (c a b > 0) = (key b < key a))"

text \<open>The perfectly balanced tree over the addresses 1 to 7.\<close>

definition seven :: ptree where
  "seven = Br (Br (Br Tip 1 Tip) 2 (Br Tip 3 Tip)) 4 (Br (Br Tip 5 Tip) 6 (Br Tip 7 Tip))"






text \<open>Two states with the same root, comparator and pointers; heights may differ.\<close>

definition same_links :: "avl_tree \<Rightarrow> avl_tree \<Rightarrow> bool" where
  "same_links s' s =
     (root s' = root s \<and> avl_cmp s' = avl_cmp s
      \<and> (\<forall>x. parent (mem s' x) = parent (mem s x) \<and> left (mem s' x) = left (mem s x)
             \<and> right (mem s' x) = right (mem s x)))"

section \<open>Reading a field after a write\<close>

lemmas upd_defs = set_parent_def set_left_def set_right_def set_node_height_def

lemma parent_upd [simp]:
  "parent (mem (set_parent a p s) x) = (if x = a then p else parent (mem s x))"
  "parent (mem (set_left a p s) x) = parent (mem s x)"
  "parent (mem (set_right a p s) x) = parent (mem s x)"
  "parent (mem (set_node_height a h s) x) = parent (mem s x)"
  by (simp_all add: upd_defs)

lemma left_upd [simp]:
  "left (mem (set_left a p s) x) = (if x = a then p else left (mem s x))"
  "left (mem (set_parent a p s) x) = left (mem s x)"
  "left (mem (set_right a p s) x) = left (mem s x)"
  "left (mem (set_node_height a h s) x) = left (mem s x)"
  by (simp_all add: upd_defs)

lemma right_upd [simp]:
  "right (mem (set_right a p s) x) = (if x = a then p else right (mem s x))"
  "right (mem (set_parent a p s) x) = right (mem s x)"
  "right (mem (set_left a p s) x) = right (mem s x)"
  "right (mem (set_node_height a h s) x) = right (mem s x)"
  by (simp_all add: upd_defs)

lemma height_upd [simp]:
  "height (mem (set_node_height a h s) x) = (if x = a then h else height (mem s x))"
  "height (mem (set_parent a p s) x) = height (mem s x)"
  "height (mem (set_left a p s) x) = height (mem s x)"
  "height (mem (set_right a p s) x) = height (mem s x)"
  by (simp_all add: upd_defs)

lemma root_upd [simp]:
  "root (set_parent a p s) = root s"
  "root (set_left a p s) = root s"
  "root (set_right a p s) = root s"
  "root (set_node_height a h s) = root s"
  by (simp_all add: upd_defs)

lemma cmp_upd [simp]:
  "avl_cmp (set_parent a p s) = avl_cmp s"
  "avl_cmp (set_left a p s) = avl_cmp s"
  "avl_cmp (set_right a p s) = avl_cmp s"
  "avl_cmp (set_node_height a h s) = avl_cmp s"
  by (simp_all add: upd_defs)

lemmas rot_defs = avl_rotate_ll_def avl_rotate_rr_def avl_rotate_lr_def avl_rotate_rl_def
  slot_get_def slot_set_def Let_def



section \<open>Tree-shaped memories\<close>



lemma shape_SomeD:
  "shape m (Some a) t \<Longrightarrow>
     \<exists>l r. t = Br l a r \<and> shape m (left (m a)) l \<and> shape m (right (m a)) r"
  by (cases t) simp_all

lemma same_links_refl [simp]: "same_links s s"
  by (simp add: same_links_def)

lemma same_links_trans: "same_links s2 s1 \<Longrightarrow> same_links s1 s \<Longrightarrow> same_links s2 s"
  by (simp add: same_links_def)

lemma same_links_height [simp]: "same_links (set_node_height a h s) s"
  by (simp add: same_links_def)



section \<open>What the rotations repoint\<close>

lemma rotate_ll_post:
  assumes "slot_get s sl = Some n" "left (mem s n) = Some l" "l \<noteq> n"
    "right (mem s l) \<notin> {Some n, Some l}"
  shows "\<exists>s'. avl_rotate_ll s sl n = Inr s' \<and> slot_get s' sl = Some l
      \<and> left (mem s' n) = right (mem s l) \<and> right (mem s' l) = Some n
      \<and> parent (mem s' n) = Some l \<and> parent (mem s' l) = parent (mem s n)
      \<and> (\<forall>b. right (mem s l) = Some b \<longrightarrow> parent (mem s' b) = Some n)"
  using assms
  by (cases sl; cases "right (mem s l)") (auto simp: rot_defs)

lemma rotate_rr_post:
  assumes "slot_get s sl = Some n" "right (mem s n) = Some r" "r \<noteq> n"
    "left (mem s r) \<notin> {Some n, Some r}"
  shows "\<exists>s'. avl_rotate_rr s sl n = Inr s' \<and> slot_get s' sl = Some r
      \<and> right (mem s' n) = left (mem s r) \<and> left (mem s' r) = Some n
      \<and> parent (mem s' n) = Some r \<and> parent (mem s' r) = parent (mem s n)
      \<and> (\<forall>a. left (mem s r) = Some a \<longrightarrow> parent (mem s' a) = Some n)"
  using assms
  by (cases sl; cases "left (mem s r)") (auto simp: rot_defs)

lemma rotate_lr_post:
  assumes "slot_get s sl = Some n" "left (mem s n) = Some l" "right (mem s l) = Some b"
    "distinct [n, l, b]"
    "left (mem s b) \<notin> {Some n, Some l, Some b}"
    "right (mem s b) \<notin> {Some n, Some l, Some b}"
    "left (mem s b) = None \<or> left (mem s b) \<noteq> right (mem s b)"
  shows "\<exists>s'. avl_rotate_lr s sl n = Inr s' \<and> slot_get s' sl = Some b
      \<and> left (mem s' b) = Some l \<and> right (mem s' b) = Some n
      \<and> right (mem s' l) = left (mem s b) \<and> left (mem s' n) = right (mem s b)
      \<and> parent (mem s' b) = parent (mem s n)
      \<and> parent (mem s' l) = Some b \<and> parent (mem s' n) = Some b
      \<and> (\<forall>c. left (mem s b) = Some c \<longrightarrow> parent (mem s' c) = Some l)
      \<and> (\<forall>d. right (mem s b) = Some d \<longrightarrow> parent (mem s' d) = Some n)"
  using assms
  by (cases sl; cases "left (mem s b)"; cases "right (mem s b)") (auto simp: rot_defs)

lemma rotate_rl_post:
  assumes "slot_get s sl = Some n" "right (mem s n) = Some r" "left (mem s r) = Some a"
    "distinct [n, r, a]"
    "left (mem s a) \<notin> {Some n, Some r, Some a}"
    "right (mem s a) \<notin> {Some n, Some r, Some a}"
    "left (mem s a) = None \<or> left (mem s a) \<noteq> right (mem s a)"
  shows "\<exists>s'. avl_rotate_rl s sl n = Inr s' \<and> slot_get s' sl = Some a
      \<and> left (mem s' a) = Some n \<and> right (mem s' a) = Some r
      \<and> right (mem s' n) = left (mem s a) \<and> left (mem s' r) = right (mem s a)
      \<and> parent (mem s' a) = parent (mem s n)
      \<and> parent (mem s' n) = Some a \<and> parent (mem s' r) = Some a
      \<and> (\<forall>c. left (mem s a) = Some c \<longrightarrow> parent (mem s' c) = Some n)
      \<and> (\<forall>d. right (mem s a) = Some d \<longrightarrow> parent (mem s' d) = Some r)"
  using assms
  by (cases sl; cases "left (mem s a)"; cases "right (mem s a)") (auto simp: rot_defs)

text \<open>
  Claim C7. Under its precondition (the slot holds the node, the child and, for the
  double rotations, the grandchild exist, and these nodes and the grandchild's children
  are different nodes, as they are in a tree), each rotation returns, and:
  LL puts \<open>node.left\<close> into the slot, makes the promoted node's former right child
  the left child of \<open>node\<close> with \<open>node\<close> as its parent, and makes \<open>node\<close> the
  promoted node's right child; RR is the mirror image; LR is RR at \<open>node.left\<close>
  followed by LL at \<open>node\<close>, RL is LL at \<open>node.right\<close> followed by RR at
  \<open>node\<close>; in all four the slot ends holding the new local root, which takes the
  old parent of \<open>node\<close>, and every repointed child points back to its new parent.
\<close>

theorem rotations_repoint:
  "(slot_get s sl = Some n \<and> left (mem s n) = Some l \<and> l \<noteq> n
      \<and> right (mem s l) \<notin> {Some n, Some l}
    \<longrightarrow> (\<exists>s'. avl_rotate_ll s sl n = Inr s' \<and> slot_get s' sl = Some l
          \<and> left (mem s' n) = right (mem s l) \<and> right (mem s' l) = Some n
          \<and> parent (mem s' n) = Some l \<and> parent (mem s' l) = parent (mem s n)
          \<and> (\<forall>x. right (mem s l) = Some x \<longrightarrow> parent (mem s' x) = Some n)))
   \<and> (slot_get s sl = Some n \<and> right (mem s n) = Some r \<and> r \<noteq> n
      \<and> left (mem s r) \<notin> {Some n, Some r}
    \<longrightarrow> (\<exists>s'. avl_rotate_rr s sl n = Inr s' \<and> slot_get s' sl = Some r
          \<and> right (mem s' n) = left (mem s r) \<and> left (mem s' r) = Some n
          \<and> parent (mem s' n) = Some r \<and> parent (mem s' r) = parent (mem s n)
          \<and> (\<forall>x. left (mem s r) = Some x \<longrightarrow> parent (mem s' x) = Some n)))
   \<and> (slot_get s sl = Some n \<and> left (mem s n) = Some l \<and> right (mem s l) = Some b
    \<longrightarrow> avl_rotate_lr s sl n =
          (case avl_rotate_rr s (LeftSlot n) l of
             Inl e \<Rightarrow> Inl e | Inr s1 \<Rightarrow> avl_rotate_ll s1 sl n))
   \<and> (slot_get s sl = Some n \<and> left (mem s n) = Some l \<and> right (mem s l) = Some b
      \<and> distinct [n, l, b]
      \<and> left (mem s b) \<notin> {Some n, Some l, Some b}
      \<and> right (mem s b) \<notin> {Some n, Some l, Some b}
      \<and> (left (mem s b) = None \<or> left (mem s b) \<noteq> right (mem s b))
    \<longrightarrow> (\<exists>s'. avl_rotate_lr s sl n = Inr s' \<and> slot_get s' sl = Some b
          \<and> left (mem s' b) = Some l \<and> right (mem s' b) = Some n
          \<and> right (mem s' l) = left (mem s b) \<and> left (mem s' n) = right (mem s b)
          \<and> parent (mem s' b) = parent (mem s n)
          \<and> parent (mem s' l) = Some b \<and> parent (mem s' n) = Some b
          \<and> (\<forall>x. left (mem s b) = Some x \<longrightarrow> parent (mem s' x) = Some l)
          \<and> (\<forall>x. right (mem s b) = Some x \<longrightarrow> parent (mem s' x) = Some n)))
   \<and> (slot_get s sl = Some n \<and> right (mem s n) = Some r \<and> left (mem s r) = Some a
    \<longrightarrow> avl_rotate_rl s sl n =
          (case avl_rotate_ll s (RightSlot n) r of
             Inl e \<Rightarrow> Inl e | Inr s1 \<Rightarrow> avl_rotate_rr s1 sl n))
   \<and> (slot_get s sl = Some n \<and> right (mem s n) = Some r \<and> left (mem s r) = Some a
      \<and> distinct [n, r, a]
      \<and> left (mem s a) \<notin> {Some n, Some r, Some a}
      \<and> right (mem s a) \<notin> {Some n, Some r, Some a}
      \<and> (left (mem s a) = None \<or> left (mem s a) \<noteq> right (mem s a))
    \<longrightarrow> (\<exists>s'. avl_rotate_rl s sl n = Inr s' \<and> slot_get s' sl = Some a
          \<and> left (mem s' a) = Some n \<and> right (mem s' a) = Some r
          \<and> right (mem s' n) = left (mem s a) \<and> left (mem s' r) = right (mem s a)
          \<and> parent (mem s' a) = parent (mem s n)
          \<and> parent (mem s' n) = Some a \<and> parent (mem s' r) = Some a
          \<and> (\<forall>x. left (mem s a) = Some x \<longrightarrow> parent (mem s' x) = Some n)
          \<and> (\<forall>x. right (mem s a) = Some x \<longrightarrow> parent (mem s' x) = Some r)))"
proof (intro conjI impI)
  assume "slot_get s sl = Some n \<and> left (mem s n) = Some l \<and> l \<noteq> n
      \<and> right (mem s l) \<notin> {Some n, Some l}"
  then show "\<exists>s'. avl_rotate_ll s sl n = Inr s' \<and> slot_get s' sl = Some l
          \<and> left (mem s' n) = right (mem s l) \<and> right (mem s' l) = Some n
          \<and> parent (mem s' n) = Some l \<and> parent (mem s' l) = parent (mem s n)
          \<and> (\<forall>x. right (mem s l) = Some x \<longrightarrow> parent (mem s' x) = Some n)"
    using rotate_ll_post [of s sl n l] by blast
next
  assume "slot_get s sl = Some n \<and> right (mem s n) = Some r \<and> r \<noteq> n
      \<and> left (mem s r) \<notin> {Some n, Some r}"
  then show "\<exists>s'. avl_rotate_rr s sl n = Inr s' \<and> slot_get s' sl = Some r
          \<and> right (mem s' n) = left (mem s r) \<and> left (mem s' r) = Some n
          \<and> parent (mem s' n) = Some r \<and> parent (mem s' r) = parent (mem s n)
          \<and> (\<forall>x. left (mem s r) = Some x \<longrightarrow> parent (mem s' x) = Some n)"
    using rotate_rr_post [of s sl n r] by blast
next
  assume "slot_get s sl = Some n \<and> left (mem s n) = Some l \<and> right (mem s l) = Some b"
  then show "avl_rotate_lr s sl n =
          (case avl_rotate_rr s (LeftSlot n) l of
             Inl e \<Rightarrow> Inl e | Inr s1 \<Rightarrow> avl_rotate_ll s1 sl n)"
    by (simp add: avl_rotate_lr_def)
next
  assume "slot_get s sl = Some n \<and> left (mem s n) = Some l \<and> right (mem s l) = Some b
      \<and> distinct [n, l, b]
      \<and> left (mem s b) \<notin> {Some n, Some l, Some b}
      \<and> right (mem s b) \<notin> {Some n, Some l, Some b}
      \<and> (left (mem s b) = None \<or> left (mem s b) \<noteq> right (mem s b))"
  then show "\<exists>s'. avl_rotate_lr s sl n = Inr s' \<and> slot_get s' sl = Some b
          \<and> left (mem s' b) = Some l \<and> right (mem s' b) = Some n
          \<and> right (mem s' l) = left (mem s b) \<and> left (mem s' n) = right (mem s b)
          \<and> parent (mem s' b) = parent (mem s n)
          \<and> parent (mem s' l) = Some b \<and> parent (mem s' n) = Some b
          \<and> (\<forall>x. left (mem s b) = Some x \<longrightarrow> parent (mem s' x) = Some l)
          \<and> (\<forall>x. right (mem s b) = Some x \<longrightarrow> parent (mem s' x) = Some n)"
    using rotate_lr_post [of s sl n l b] by blast
next
  assume "slot_get s sl = Some n \<and> right (mem s n) = Some r \<and> left (mem s r) = Some a"
  then show "avl_rotate_rl s sl n =
          (case avl_rotate_ll s (RightSlot n) r of
             Inl e \<Rightarrow> Inl e | Inr s1 \<Rightarrow> avl_rotate_rr s1 sl n)"
    by (simp add: avl_rotate_rl_def)
next
  assume "slot_get s sl = Some n \<and> right (mem s n) = Some r \<and> left (mem s r) = Some a
      \<and> distinct [n, r, a]
      \<and> left (mem s a) \<notin> {Some n, Some r, Some a}
      \<and> right (mem s a) \<notin> {Some n, Some r, Some a}
      \<and> (left (mem s a) = None \<or> left (mem s a) \<noteq> right (mem s a))"
  then show "\<exists>s'. avl_rotate_rl s sl n = Inr s' \<and> slot_get s' sl = Some a
          \<and> left (mem s' a) = Some n \<and> right (mem s' a) = Some r
          \<and> right (mem s' n) = left (mem s a) \<and> left (mem s' r) = right (mem s a)
          \<and> parent (mem s' a) = parent (mem s n)
          \<and> parent (mem s' n) = Some a \<and> parent (mem s' r) = Some a
          \<and> (\<forall>x. left (mem s a) = Some x \<longrightarrow> parent (mem s' x) = Some n)
          \<and> (\<forall>x. right (mem s a) = Some x \<longrightarrow> parent (mem s' x) = Some r)"
    using rotate_rl_post [of s sl n r a] by blast
qed

text \<open>The four rotations at the root of the perfectly balanced tree over 1 to 7.\<close>

theorem rotations_repoint_witness:
  "(\<exists>s'. avl_rotate_ll (tree_state int seven) RootSlot 4 = Inr s' \<and> root s' = Some 2
      \<and> left (mem s' 4) = Some 3 \<and> right (mem s' 2) = Some 4
      \<and> parent (mem s' 4) = Some 2 \<and> parent (mem s' 2) = None \<and> parent (mem s' 3) = Some 4)
   \<and> (\<exists>s'. avl_rotate_rr (tree_state int seven) RootSlot 4 = Inr s' \<and> root s' = Some 6
      \<and> right (mem s' 4) = Some 5 \<and> left (mem s' 6) = Some 4
      \<and> parent (mem s' 4) = Some 6 \<and> parent (mem s' 6) = None \<and> parent (mem s' 5) = Some 4)
   \<and> (\<exists>s'. avl_rotate_lr (tree_state int seven) RootSlot 4 = Inr s' \<and> root s' = Some 3
      \<and> left (mem s' 3) = Some 2 \<and> right (mem s' 3) = Some 4
      \<and> right (mem s' 2) = None \<and> left (mem s' 4) = None
      \<and> parent (mem s' 3) = None \<and> parent (mem s' 2) = Some 3 \<and> parent (mem s' 4) = Some 3)
   \<and> (\<exists>s'. avl_rotate_rl (tree_state int seven) RootSlot 4 = Inr s' \<and> root s' = Some 5
      \<and> left (mem s' 5) = Some 4 \<and> right (mem s' 5) = Some 6
      \<and> right (mem s' 4) = None \<and> left (mem s' 6) = None
      \<and> parent (mem s' 5) = None \<and> parent (mem s' 4) = Some 5 \<and> parent (mem s' 6) = Some 5)"
proof -
  let ?s = "tree_state int seven"
  have h: "slot_get ?s RootSlot = Some 4" "left (mem ?s 4) = Some 2"
    "right (mem ?s 4) = Some 6" "right (mem ?s 2) = Some 3" "left (mem ?s 6) = Some 5"
    "left (mem ?s 3) = None" "right (mem ?s 3) = None" "left (mem ?s 5) = None"
    "right (mem ?s 5) = None" "parent (mem ?s 4) = None"
    by (simp_all add: tree_state_def seven_def slot_get_def)
  have r: "\<And>s'. slot_get s' RootSlot = root s'"
    by (simp add: slot_get_def)
  note t = rotations_repoint [of ?s RootSlot 4 2 6 3 5]
  have "\<exists>s'. avl_rotate_ll ?s RootSlot 4 = Inr s' \<and> root s' = Some 2
      \<and> left (mem s' 4) = Some 3 \<and> right (mem s' 2) = Some 4
      \<and> parent (mem s' 4) = Some 2 \<and> parent (mem s' 2) = None \<and> parent (mem s' 3) = Some 4"
    using t [THEN conjunct1] h by (simp add: r)
  moreover have "\<exists>s'. avl_rotate_rr ?s RootSlot 4 = Inr s' \<and> root s' = Some 6
      \<and> right (mem s' 4) = Some 5 \<and> left (mem s' 6) = Some 4
      \<and> parent (mem s' 4) = Some 6 \<and> parent (mem s' 6) = None \<and> parent (mem s' 5) = Some 4"
    using t [THEN conjunct2, THEN conjunct1] h by (simp add: r)
  moreover have "\<exists>s'. avl_rotate_lr ?s RootSlot 4 = Inr s' \<and> root s' = Some 3
      \<and> left (mem s' 3) = Some 2 \<and> right (mem s' 3) = Some 4
      \<and> right (mem s' 2) = None \<and> left (mem s' 4) = None
      \<and> parent (mem s' 3) = None \<and> parent (mem s' 2) = Some 3 \<and> parent (mem s' 4) = Some 3"
    using t [THEN conjunct2, THEN conjunct2, THEN conjunct2, THEN conjunct1] h
    by (simp add: r)
  moreover have "\<exists>s'. avl_rotate_rl ?s RootSlot 4 = Inr s' \<and> root s' = Some 5
      \<and> left (mem s' 5) = Some 4 \<and> right (mem s' 5) = Some 6
      \<and> right (mem s' 4) = None \<and> left (mem s' 6) = None
      \<and> parent (mem s' 5) = None \<and> parent (mem s' 4) = Some 5 \<and> parent (mem s' 6) = Some 5"
    using t [THEN conjunct2, THEN conjunct2, THEN conjunct2, THEN conjunct2, THEN conjunct2] h
    by (simp add: r)
  ultimately show ?thesis by blast
qed
section \<open>Deleting a node without parent\<close>

lemma del_reduce_id:
  "left (mem s n) = None \<or> right (mem s n) = None \<Longrightarrow> avl_del_reduce f s n = Inr s"
  by (auto simp: avl_del_reduce_def)

lemma del_parentless_post:
  assumes "avl_del_reduce f s n = Inr s1" "parent (mem s1 n) = None"
    "left (mem s1 n) = None \<or> right (mem s1 n) = None"
    "child = (if left (mem s1 n) \<noteq> None then left (mem s1 n) else right (mem s1 n))"
  shows "\<exists>s'. avl_del f s n = Inr s' \<and> root s' = child \<and> avl_cmp s' = avl_cmp s1
      \<and> (\<forall>c. child = Some c \<longrightarrow> mem s' c = (mem s1 c)\<lparr>parent := None\<rparr>)
      \<and> (\<forall>x. child \<noteq> Some x \<longrightarrow> mem s' x = mem s1 x)"
  using assms
  by (auto simp: avl_del_def avl_del_unlink_def slot_set_def slot_get_def Let_def set_parent_def
      split: option.splits)

text \<open>
  Claim C10. With at most one child on entry the two-children reduction changes nothing.
  When the node has no parent after the reduction (and at most one child, which the
  assertion of the source checks), Delete returns: the root is the node's only child, or
  absent; that child's parent is cleared; no height is recomputed and nothing is rotated,
  so every other node, and the other fields of the child, are as they were.
\<close>

theorem del_parentless:
  "(left (mem s n) = None \<or> right (mem s n) = None \<longrightarrow> avl_del_reduce f s n = Inr s)
   \<and> (avl_del_reduce f s n = Inr s1 \<and> parent (mem s1 n) = None
        \<and> (left (mem s1 n) = None \<or> right (mem s1 n) = None)
        \<and> child = (if left (mem s1 n) \<noteq> None then left (mem s1 n) else right (mem s1 n))
      \<longrightarrow> (\<exists>s'. avl_del f s n = Inr s' \<and> root s' = child \<and> avl_cmp s' = avl_cmp s1
            \<and> (\<forall>c. child = Some c \<longrightarrow> mem s' c = (mem s1 c)\<lparr>parent := None\<rparr>)
            \<and> (\<forall>x. child \<noteq> Some x \<longrightarrow> mem s' x = mem s1 x)))"
  using del_reduce_id [of s n f] del_parentless_post [of f s n s1 child] by blast

text \<open>Deleting the root 3 of the tree with the single left child 2.\<close>

theorem del_parentless_witness:
  "\<exists>s'. avl_del 10 (tree_state int (Br (Br Tip 2 Tip) 3 Tip)) 3 = Inr s' \<and> root s' = Some 2
     \<and> mem s' 2 = \<lparr>parent = None, left = None, right = None, height = 1\<rparr>
     \<and> mem s' 3 = \<lparr>parent = None, left = Some 2, right = None, height = 2\<rparr>
     \<and> mem s' 4 = blank"
proof -
  let ?s = "tree_state int (Br (Br Tip 2 Tip) 3 Tip)"
  have h: "left (mem ?s 3) = Some 2" "right (mem ?s 3) = None" "parent (mem ?s 3) = None"
    "mem ?s 2 = \<lparr>parent = Some 3, left = None, right = None, height = 1\<rparr>"
    "mem ?s 3 = \<lparr>parent = None, left = Some 2, right = None, height = 2\<rparr>"
    "mem ?s 4 = blank"
    by (simp_all add: tree_state_def)
  note t = del_parentless [of ?s 3 10 ?s "Some 2"]
  have r: "avl_del_reduce 10 ?s 3 = Inr ?s"
    using t [THEN conjunct1] h by simp
  have "\<exists>s'. avl_del 10 ?s 3 = Inr s' \<and> root s' = Some 2
      \<and> mem s' 2 = (mem ?s 2)\<lparr>parent := None\<rparr>
      \<and> (\<forall>x. Some 2 \<noteq> Some x \<longrightarrow> mem s' x = mem ?s x)"
    using t [THEN conjunct2] r h(1-3) by auto
  then obtain s' where s': "avl_del 10 ?s 3 = Inr s'" "root s' = Some 2"
    "mem s' 2 = (mem ?s 2)\<lparr>parent := None\<rparr>"
    "\<forall>x. Some 2 \<noteq> Some x \<longrightarrow> mem s' x = mem ?s x"
    by blast
  have "mem s' 3 = mem ?s 3" "mem s' 4 = mem ?s 4"
    using s'(4) by simp_all
  with s' h show ?thesis by simp
qed

section \<open>The flag of the driver and the walk of Delete\<close>














section \<open>Search\<close>

lemma cmp_zero_iff:
  "compares_keys c key \<Longrightarrow> (c a b = 0) = (key a = key b)"
  unfolding compares_keys_def
  by (metis less_irrefl linorder_less_linear not_less_iff_gr_or_eq)

lemma find_rec_correct:
  assumes ck: "compares_keys (avl_cmp s) key"
  shows "shape (mem s) a t \<Longrightarrow> bst (avl_cmp s) t \<Longrightarrow> depth t \<le> k \<Longrightarrow>
     (\<exists>m. avl_find_rec k s a p = Inr (Some m) \<and> m \<in> set (inorder t) \<and> key m = key p)
     \<or> (avl_find_rec k s a p = Inr None \<and> (\<forall>x \<in> set (inorder t). key x \<noteq> key p))"
proof (induction t arbitrary: a k)
  case Tip
  then show ?case by (cases a) simp_all
next
  case (Br l x r)
  from Br.prems(1) have a: "a = Some x"
    and sl: "shape (mem s) (left (mem s x)) l" and sr: "shape (mem s) (right (mem s x)) r"
    by (cases a; simp)+
  from Br.prems(3) obtain k' where k: "k = Suc k'" "depth l \<le> k'" "depth r \<le> k'"
    by (cases k) auto
  from Br.prems(2) have bl: "bst (avl_cmp s) l" and br: "bst (avl_cmp s) r"
    and ll: "\<forall>y \<in> set (inorder l). key y < key x"
    and rr: "\<forall>y \<in> set (inorder r). key x < key y"
    using ck by (auto simp: list_all_iff compares_keys_def)
  have lt: "(avl_cmp s p x < 0) = (key p < key x)" and gt: "(avl_cmp s p x > 0) = (key x < key p)"
    using ck by (auto simp: compares_keys_def)
  consider "key x < key p" | "key p < key x" | "key p = key x"
    by (metis linorder_less_linear)
  then show ?case
  proof cases
    case 1
    then have f: "avl_find_rec k s a p = avl_find_rec k' s (right (mem s x)) p"
      using a k gt by simp
    from Br.IH(2) [OF sr br k(3)] 1 ll show ?thesis
      unfolding f by fastforce
  next
    case 2
    then have f: "avl_find_rec k s a p = avl_find_rec k' s (left (mem s x)) p"
      using a k lt gt by (simp add: Let_def)
    from Br.IH(1) [OF sl bl k(2)] 2 rr show ?thesis
      unfolding f by fastforce
  next
    case 3
    then have "avl_find_rec k s a p = Inr (Some x)"
      using a k lt gt by (simp add: Let_def)
    with 3 show ?thesis by simp
  qed
qed

text \<open>
  Claim C9. Let the child pointers below the root form the tree \<open>t\<close>, let \<open>t\<close> satisfy
  the ordering invariant, and let the comparator compare keys of a linear order. With a
  depth bound of at least the depth of \<open>t\<close>, Find returns a node of \<open>t\<close> that compares
  equal to the probe when there is one, and \<^verbatim>\<open>NULL\<close> when there is none. The descent
  goes left when the probe compares less than the current node, right when it compares
  greater, and stops at a node that compares equal or at \<^verbatim>\<open>NULL\<close>. Find is a function
  of the state that returns a pointer only: \<^verbatim>\<open>__avl_find\<close> contains no assignment
  to the tree or to a node, so the state after the call is the state before it.
\<close>

theorem find_correct:
  "(shape (mem s) (root s) t \<and> bst (avl_cmp s) t \<and> compares_keys (avl_cmp s) key
      \<and> depth t \<le> f
    \<longrightarrow> ((\<exists>x \<in> set (inorder t). avl_cmp s p x = 0)
          \<longrightarrow> (\<exists>m. avl_find f s p = Inr (Some m) \<and> m \<in> set (inorder t)
                \<and> avl_cmp s p m = 0))
        \<and> ((\<forall>x \<in> set (inorder t). avl_cmp s p x \<noteq> 0) \<longrightarrow> avl_find f s p = Inr None))
   \<and> (avl_cmp s p r < 0
      \<longrightarrow> avl_find_rec (Suc k) s (Some r) p = avl_find_rec k s (left (mem s r)) p)
   \<and> (avl_cmp s p r > 0
      \<longrightarrow> avl_find_rec (Suc k) s (Some r) p = avl_find_rec k s (right (mem s r)) p)
   \<and> (avl_cmp s p r = 0 \<longrightarrow> avl_find_rec (Suc k) s (Some r) p = Inr (Some r))
   \<and> avl_find_rec k s None p = Inr None"
proof (intro conjI impI)
  assume h: "shape (mem s) (root s) t \<and> bst (avl_cmp s) t \<and> compares_keys (avl_cmp s) key
      \<and> depth t \<le> f"
  then have ck: "compares_keys (avl_cmp s) key" by simp
  note z = cmp_zero_iff [OF ck]
  from h have d: "(\<exists>m. avl_find f s p = Inr (Some m) \<and> m \<in> set (inorder t) \<and> key m = key p)
     \<or> (avl_find f s p = Inr None \<and> (\<forall>x \<in> set (inorder t). key x \<noteq> key p))"
    unfolding avl_find_def using find_rec_correct [of s key "root s" t f p] by blast
  {
    assume "\<exists>x \<in> set (inorder t). avl_cmp s p x = 0"
    with d show "\<exists>m. avl_find f s p = Inr (Some m) \<and> m \<in> set (inorder t)
        \<and> avl_cmp s p m = 0"
      unfolding z by metis
  }
  {
    assume "\<forall>x \<in> set (inorder t). avl_cmp s p x \<noteq> 0"
    with d show "avl_find f s p = Inr None"
      unfolding z by metis
  }
qed (simp_all add: Let_def)

text \<open>
  In the perfectly balanced tree over 1 to 7, with the last digit of the address as key:
  the probe 15 finds a member with key 5, the probe 19 finds none.
\<close>

theorem find_correct_witness:
  "(\<exists>m. avl_find 3 (tree_state (\<lambda>a. int (a mod 10)) seven) 15 = Inr (Some m)
        \<and> m \<in> set (inorder seven)
        \<and> avl_cmp (tree_state (\<lambda>a. int (a mod 10)) seven) 15 m = 0)
   \<and> avl_find 3 (tree_state (\<lambda>a. int (a mod 10)) seven) 19 = Inr None
   \<and> avl_find_rec 3 (tree_state (\<lambda>a. int (a mod 10)) seven) (Some 4) 15
       = avl_find_rec 2 (tree_state (\<lambda>a. int (a mod 10)) seven) (Some 6) 15
   \<and> avl_find_rec 2 (tree_state (\<lambda>a. int (a mod 10)) seven) (Some 6) 15
       = avl_find_rec 1 (tree_state (\<lambda>a. int (a mod 10)) seven) (Some 5) 15
   \<and> avl_find_rec 1 (tree_state (\<lambda>a. int (a mod 10)) seven) (Some 5) 15 = Inr (Some 5)"
proof -
  let ?k = "\<lambda>a::nat. int (a mod 10)"
  let ?s = "tree_state ?k seven"
  have h: "shape (mem ?s) (root ?s) seven \<and> bst (avl_cmp ?s) seven
    \<and> compares_keys (avl_cmp ?s) ?k \<and> depth seven \<le> 3"
    by (simp add: tree_state_def seven_def key_cmp_def compares_keys_def)
  have e: "\<exists>x \<in> set (inorder seven). avl_cmp ?s 15 x = 0"
    "\<forall>x \<in> set (inorder seven). avl_cmp ?s 19 x \<noteq> 0"
    by (simp_all add: tree_state_def seven_def key_cmp_def)
  have c: "avl_cmp ?s 15 4 > 0" "avl_cmp ?s 15 6 < 0" "avl_cmp ?s 15 5 = 0"
    by (simp_all add: tree_state_def seven_def key_cmp_def)
  have p: "right (mem ?s 4) = Some 6" "left (mem ?s 6) = Some 5"
    by (simp_all add: tree_state_def seven_def)
  have n: "(3::nat) = Suc 2" "(2::nat) = Suc 1" "(1::nat) = Suc 0"
    by simp_all
  note f = find_correct [of ?s seven ?k 3 15, THEN conjunct1, THEN mp, OF h]
  note g = find_correct [of ?s seven ?k 3 19, THEN conjunct1, THEN mp, OF h]
  have "\<exists>m. avl_find 3 ?s 15 = Inr (Some m) \<and> m \<in> set (inorder seven) \<and> avl_cmp ?s 15 m = 0"
    using f [THEN conjunct1, THEN mp, OF e(1)] .
  moreover have "avl_find 3 ?s 19 = Inr None"
    using g [THEN conjunct2, THEN mp, OF e(2)] .
  moreover have "avl_find_rec 3 ?s (Some 4) 15 = avl_find_rec 2 ?s (Some 6) 15"
    using find_correct [of ?s seven ?k 3 15 4 2, THEN conjunct2, THEN conjunct2,
        THEN conjunct1, THEN mp, OF c(1)]
    unfolding p n(1) [symmetric] .
  moreover have "avl_find_rec 2 ?s (Some 6) 15 = avl_find_rec 1 ?s (Some 5) 15"
    using find_correct [of ?s seven ?k 3 15 6 1, THEN conjunct2, THEN conjunct1,
        THEN mp, OF c(2)]
    unfolding p n(2) [symmetric] .
  moreover have "avl_find_rec 1 ?s (Some 5) 15 = Inr (Some 5)"
    using find_correct [of ?s seven ?k 3 15 5 0, THEN conjunct2, THEN conjunct2,
        THEN conjunct2, THEN conjunct1, THEN mp, OF c(3)]
    unfolding n(3) [symmetric] .
  ultimately show ?thesis
    by (intro conjI)
qed

section \<open>Insertion returns the wrong subtree root\<close>

text \<open>
  Claim C1 (ascending keys 1..7 give the perfectly balanced tree with root key 4).
  The code does not do this. Node \<open>k\<close> carries key \<open>k\<close>. Each key is greater than
  the root's, so \<^verbatim>\<open>__avl_add\<close> takes the branch \<^verbatim>\<open>res > 0\<close> and returns the
  pointer it stored in \<^verbatim>\<open>root->right\<close>, which \<^verbatim>\<open>avl_add\<close> installs as the tree
  root. After the seven calls the root is node 7, no other node is reachable from it,
  and no rotation has taken place.
\<close>

theorem ascending_adds_root_is_last:
  "case run_ops 10 (empty_tree int) [Add 1, Add 2, Add 3, Add 4, Add 5, Add 6, Add 7] of
     Inl e \<Rightarrow> False
   | Inr s \<Rightarrow> root s = Some 7 \<and> shape_of 10 (mem s) (root s) = Some (Br Tip 7 Tip)
       \<and> parent (mem s 7) = Some 6 \<and> right (mem s 6) = Some 7"
  by code_simp

text \<open>
  Claim C2 (after any sequence of Add and Delete every reachable node has balance
  factor -1, 0 or 1). The code does not keep this. After \<open>Add 2, Add 1, Add 5\<close> the
  root is node 5 although its parent is node 2; \<open>Del 5\<close>, a member, rewrites the
  child pointer of node 2 and leaves the tree root at node 5; \<open>Add 3\<close> then walks
  the parent pointers 3, 4, 2 and never visits node 5, whose left subtree has height 2
  and whose right subtree is absent.
\<close>

theorem add_del_leaves_root_unbalanced:
  "case run_ops 10 (empty_tree int) [Add 2, Add 1, Add 5, Add 4, Del 5, Add 3] of
     Inl e \<Rightarrow> False
   | Inr s \<Rightarrow> root s = Some 5
       \<and> shape_of 10 (mem s) (root s) = Some (Br (Br (Br Tip 3 Tip) 4 Tip) 5 Tip)
       \<and> avl_get_balance s 5 = 2 \<and> \<not> avl_is_balanced s 5"
  by code_simp

text \<open>
  Claim C3 (adding a node whose key is already in the tree changes nothing). The code
  does not do this when the equal node lies to the right of the root. Nodes 1, 2, 3
  carry their addresses as keys and node 13 carries key 3. \<open>Add 3, Add 2, Add 1\<close>
  builds the tree with root 2 and children 1 and 3; adding node 13 then makes node 3
  the tree root.
\<close>

theorem duplicate_add_moves_root:
  "case run_ops 10 (empty_tree (\<lambda>a. int (a mod 10))) [Add 3, Add 2, Add 1] of
     Inl e \<Rightarrow> False
   | Inr s \<Rightarrow> root s = Some 2
       \<and> shape_of 10 (mem s) (root s) = Some (Br (Br Tip 1 Tip) 2 (Br Tip 3 Tip))
       \<and> avl_cmp s 13 3 = 0
       \<and> (case avl_add 10 s 13 of
             Inl e \<Rightarrow> False
           | Inr s' \<Rightarrow> root s' = Some 3
               \<and> shape_of 10 (mem s') (root s') = Some (Br Tip 3 Tip)
               \<and> mem s' 13 = blank)"
  by code_simp

text \<open>
  Claim C5 (N adds of distinct keys and D deletes of members leave N - D reachable
  nodes). The code does not keep this count: after adding keys 1 and 2 only node 2 is
  reachable from the root.
\<close>

theorem two_adds_one_reachable:
  "case run_ops 10 (empty_tree int) [Add 1, Add 2] of
     Inl e \<Rightarrow> False
   | Inr s \<Rightarrow> root s = Some 2
       \<and> map_option inorder (shape_of 10 (mem s) (root s)) = Some [2]"
  by code_simp
section \<open>What insertion assigns to the new node\<close>












end
